theory Spec2Isabelle
  imports Main "HOL-Library.Sublist"
begin

section \<open>Python strings and lists\<close>

text \<open>
  The handler in \<^verbatim>\<open>update-resource-metadata/__init__.py\<close> works on Python strings with
  \<^verbatim>\<open>str.split\<close>, \<^verbatim>\<open>str.join\<close>, the substring test \<^verbatim>\<open>a in b\<close>, slicing and indexing.
  A string is a \<^typ>\<open>string\<close>; the operations are written out below.
\<close>

text \<open>
  \<^verbatim>\<open>s.split(sep)\<close>: the pieces of \<open>s\<close> between the occurrences of \<open>sep\<close>, found from
  the left and not overlapping. Python raises ValueError for an empty separator; every
  call of the handler passes a non-empty literal.
\<close>

fun str_split :: "string \<Rightarrow> string \<Rightarrow> string list" where
  "str_split sep [] = [[]]"
| "str_split sep (c # cs) =
     (if prefix sep (c # cs) then [] # str_split sep (drop (length sep - 1) cs)
      else (case str_split sep cs of
              [] \<Rightarrow> [[c]]
            | p # ps \<Rightarrow> (c # p) # ps))"

text \<open>\<^verbatim>\<open>sep.join(xs)\<close>.\<close>

fun str_join :: "string \<Rightarrow> string list \<Rightarrow> string" where
  "str_join sep [] = []"
| "str_join sep [x] = x"
| "str_join sep (x # y # ys) = x @ sep @ str_join sep (y # ys)"

text \<open>\<^verbatim>\<open>sub in s\<close> for two strings: \<open>sub\<close> occurs in \<open>s\<close> as a contiguous block.\<close>

fun str_contains :: "string \<Rightarrow> string \<Rightarrow> bool" where
  "str_contains sub [] = (sub = [])"
| "str_contains sub (c # cs) = (prefix sub (c # cs) \<or> str_contains sub cs)"

section \<open>Python values and exceptions\<close>

text \<open>
  The event body and the body of an error response are parsed JSON: \<^verbatim>\<open>None\<close>, booleans,
  numbers, strings, lists and dicts. A dict is an association list with distinct keys.
  Numbers are integers here: the handler only copies a number or tests whether it is zero.
\<close>

datatype pyval =
    PNone
  | PBool bool
  | PInt int
  | PStr string
  | PList "pyval list"
  | PDict "(string \<times> pyval) list"

text \<open>
  An \<^verbatim>\<open>HttpResponseError\<close> of the SDK: its \<^verbatim>\<open>status_code\<close> and the result of
  \<^verbatim>\<open>json.loads(error.response.text())\<close>, which is \<open>None\<close> when the text is not JSON
  (\<^verbatim>\<open>json.loads\<close> raises JSONDecodeError then).
\<close>

record http_error =
  status_code :: int
  response_json :: "pyval option"

datatype exn =
    TypeError
  | AttributeError
  | IndexError
  | KeyError
  | JSONDecodeError
  | UnboundLocalError
  | HttpResponseError http_error
  | OtherError string

text \<open>Truth value of a Python value, as \<^verbatim>\<open>if x\<close> and \<^verbatim>\<open>x if x else y\<close> test it.\<close>

fun truthy :: "pyval \<Rightarrow> bool" where
  "truthy PNone = False"
| "truthy (PBool b) = b"
| "truthy (PInt i) = (i \<noteq> 0)"
| "truthy (PStr s) = (s \<noteq> [])"
| "truthy (PList xs) = (xs \<noteq> [])"
| "truthy (PDict kvs) = (kvs \<noteq> [])"

text \<open>
  \<^verbatim>\<open>key in container\<close> for a string key: key membership in a dict, substring test in a
  string, element membership in a list, TypeError for \<^verbatim>\<open>None\<close>, booleans and numbers.
\<close>

fun py_contains :: "pyval \<Rightarrow> string \<Rightarrow> exn + bool" where
  "py_contains (PDict kvs) key = Inr (key \<in> set (map fst kvs))"
| "py_contains (PStr s) key = Inr (str_contains key s)"
| "py_contains (PList xs) key = Inr (PStr key \<in> set xs)"
| "py_contains PNone key = Inl TypeError"
| "py_contains (PBool b) key = Inl TypeError"
| "py_contains (PInt i) key = Inl TypeError"

text \<open>
  \<^verbatim>\<open>container[key]\<close> for a string key: the value in a dict or KeyError; TypeError for
  every other value (a string or list wants an integer index, the rest has no items).
\<close>

fun py_getitem :: "pyval \<Rightarrow> string \<Rightarrow> exn + pyval" where
  "py_getitem (PDict kvs) key =
     (case map_of kvs key of None \<Rightarrow> Inl KeyError | Some v \<Rightarrow> Inr v)"
| "py_getitem PNone key = Inl TypeError"
| "py_getitem (PBool b) key = Inl TypeError"
| "py_getitem (PInt i) key = Inl TypeError"
| "py_getitem (PStr s) key = Inl TypeError"
| "py_getitem (PList xs) key = Inl TypeError"

text \<open>\<^verbatim>\<open>xs[i]\<close> for a constant index \<open>i \<ge> 0\<close>: IndexError out of range.\<close>

definition py_index :: "'a list \<Rightarrow> nat \<Rightarrow> exn + 'a" where
  "py_index xs i = (if i < length xs then Inr (xs ! i) else Inl IndexError)"

section \<open>Path and message parsing\<close>

text \<open>
  \<^verbatim>\<open>extract_resource_path(path)\<close> is \<^verbatim>\<open>"/".join(path.split("/")[:9])\<close>. The argument is
  whatever the event holds under \<^verbatim>\<open>resourceUri\<close>; a value that is not a string has no
  \<^verbatim>\<open>split\<close> (AttributeError).
\<close>

fun extract_resource_path :: "pyval \<Rightarrow> exn + string" where
  "extract_resource_path (PStr path) = Inr (str_join ''/'' (take 9 (str_split ''/'' path)))"
| "extract_resource_path PNone = Inl AttributeError"
| "extract_resource_path (PBool b) = Inl AttributeError"
| "extract_resource_path (PInt i) = Inl AttributeError"
| "extract_resource_path (PList xs) = Inl AttributeError"
| "extract_resource_path (PDict kvs) = Inl AttributeError"

text \<open>\<^verbatim>\<open>extract_subscription_id(path)\<close> is \<^verbatim>\<open>path.split("/")[2]\<close>.\<close>

definition extract_subscription_id :: "string \<Rightarrow> exn + string" where
  "extract_subscription_id path = py_index (str_split ''/'' path) 2"

definition VERSIONS_MARKER :: string where
  "VERSIONS_MARKER = ''The supported api-versions are '' @ [CHR 0x27]"

text \<open>
  \<^verbatim>\<open>extract_version_from_error_message(message)\<close>:
  \<^verbatim>\<open>versions = message.split("The supported api-versions are '")[1]\<close>, then
  \<^verbatim>\<open>versions.split(",")[0]\<close>. The argument is the \<^verbatim>\<open>message\<close> of the error body.
\<close>

fun extract_version_from_error_message :: "pyval \<Rightarrow> exn + string" where
  "extract_version_from_error_message (PStr message) =
     (case py_index (str_split VERSIONS_MARKER message) 1 of
        Inl e \<Rightarrow> Inl e
      | Inr versions \<Rightarrow> py_index (str_split '','' versions) 0)"
| "extract_version_from_error_message PNone = Inl AttributeError"
| "extract_version_from_error_message (PBool b) = Inl AttributeError"
| "extract_version_from_error_message (PInt i) = Inl AttributeError"
| "extract_version_from_error_message (PList xs) = Inl AttributeError"
| "extract_version_from_error_message (PDict kvs) = Inl AttributeError"

section \<open>The resource-management API\<close>

text \<open>
  A resource as \<^verbatim>\<open>resources.get\<close> returns it: only its \<^verbatim>\<open>tags\<close> are read, \<^verbatim>\<open>None\<close> or
  a dict from tag names to strings.
\<close>

record azure_resource =
  tags :: "(string \<times> string) list option"

text \<open>
  The arguments of one \<^verbatim>\<open>resource_client.resources.get\<close> call, with the subscription
  the client was built for. The handler always passes an empty
  \<^verbatim>\<open>resource_provider_namespace\<close> and \<^verbatim>\<open>parent_resource_path\<close>.
\<close>

record get_request =
  req_subscription :: string
  req_group :: string
  req_type :: string
  req_name :: string
  req_api_version :: string

text \<open>
  The requests sent, in order: a lookup, or \<^verbatim>\<open>tags.create_or_update_at_scope(scope,
  {"properties": {"tags": tags}})\<close> recorded with its scope and tag dict.
\<close>

datatype api_call =
    ResourcesGet get_request
  | TagsCreateOrUpdate string "(string \<times> pyval) list"

text \<open>
  The service behind the client. Each answer may depend on the requests sent so far.
  A lookup returns an object (or \<^verbatim>\<open>None\<close>) or raises; a tag write returns or raises.
  Building the credential and the client sends no request.
\<close>

record sdk =
  resources_get :: "api_call list \<Rightarrow> get_request \<Rightarrow> exn + azure_resource option"
  create_or_update_at_scope ::
    "api_call list \<Rightarrow> string \<Rightarrow> (string \<times> pyval) list \<Rightarrow> exn option"

record resource_client =
  client_sdk :: sdk
  client_subscription :: string

section \<open>The handler\<close>

definition API_VERSION :: string where
  "API_VERSION = ''2021-04-01''"

text \<open>The truth value of the \<^verbatim>\<open>api_version\<close> argument: \<^verbatim>\<open>None\<close> and \<^verbatim>\<open>""\<close> are false.\<close>

fun version_given :: "string option \<Rightarrow> bool" where
  "version_given None = False"
| "version_given (Some v) = (v \<noteq> [])"

text \<open>
  The request of lines 86 to 93: the client's subscription, the three names, and
  \<^verbatim>\<open>api_version if api_version else API_VERSION\<close>.
\<close>

definition lookup_request ::
  "resource_client \<Rightarrow> string \<Rightarrow> string \<Rightarrow> string \<Rightarrow> string option \<Rightarrow> get_request" where
  "lookup_request client resource_group_name resource_type resource_name version =
     \<lparr>req_subscription = client_subscription client,
      req_group = resource_group_name,
      req_type = resource_type,
      req_name = resource_name,
      req_api_version =
        (case version of
           None \<Rightarrow> API_VERSION
         | Some v \<Rightarrow> if v \<noteq> [] then v else API_VERSION)\<rparr>"

text \<open>
  \<^verbatim>\<open>call_until_valid_api\<close> (lines 78 to 109). The lookup is sent with the given version, or
  with \<open>API_VERSION\<close>. An \<^verbatim>\<open>HttpResponseError\<close> is raised again when a version was given.
  Otherwise, for status 400 and code \<^verbatim>\<open>NoRegisteredProviderFound\<close>, the function calls
  itself with the version read from the message. Every other path through the
  \<^verbatim>\<open>except\<close> block reaches the end of the function, which returns \<^verbatim>\<open>None\<close>. An exception
  that is not an \<^verbatim>\<open>HttpResponseError\<close> is not caught. The result is \<open>None\<close> when the
  recursion never ends.
\<close>

partial_function (option) call_until_valid_api ::
  "resource_client \<Rightarrow> string \<Rightarrow> string \<Rightarrow> string \<Rightarrow> string option \<Rightarrow> api_call list
     \<Rightarrow> ((exn + azure_resource option) \<times> api_call list) option" where
  "call_until_valid_api client resource_group_name resource_type resource_name version calls =
     (let request = lookup_request client resource_group_name resource_type resource_name version;
          calls' = calls @ [ResourcesGet request]
      in case resources_get (client_sdk client) calls request of
           Inr found \<Rightarrow> Some (Inr found, calls')
         | Inl (HttpResponseError error) \<Rightarrow>
             if version_given version then Some (Inl (HttpResponseError error), calls')
             else if status_code error = 400 then
               (case response_json error of
                  None \<Rightarrow> Some (Inl JSONDecodeError, calls')
                | Some error_json \<Rightarrow>
                    (case py_getitem error_json ''error'' of
                       Inl e \<Rightarrow> Some (Inl e, calls')
                     | Inr err \<Rightarrow>
                         (case py_getitem err ''code'' of
                            Inl e \<Rightarrow> Some (Inl e, calls')
                          | Inr code \<Rightarrow>
                              if code = PStr ''NoRegisteredProviderFound'' then
                                (case py_getitem err ''message'' of
                                   Inl e \<Rightarrow> Some (Inl e, calls')
                                 | Inr message \<Rightarrow>
                                     (case extract_version_from_error_message message of
                                        Inl e \<Rightarrow> Some (Inl e, calls')
                                      | Inr v \<Rightarrow>
                                          call_until_valid_api client resource_group_name
                                            resource_type resource_name (Some v) calls'))
                              else Some (Inr None, calls'))))
             else Some (Inr None, calls')
         | Inl e \<Rightarrow> Some (Inl e, calls'))"

definition EMAIL_CLAIM_KEY :: string where
  "EMAIL_CLAIM_KEY = ''http://schemas.xmlsoap.org/ws/2005/05/identity/claims/name''"

definition ID_CLAIM_KEY :: string where
  "ID_CLAIM_KEY = ''http://schemas.microsoft.com/identity/claims/objectidentifier''"

definition CLAIMS_KEY :: string where
  "CLAIMS_KEY = ''claims''"

definition RESOURCE_KEY :: string where
  "RESOURCE_KEY = ''resourceUri''"

text \<open>
  The two claim lookups of \<^verbatim>\<open>extract_metadata\<close> (lines 43 to 49), run when
  \<^verbatim>\<open>CLAIMS_KEY in json\<close>: the result is \<open>(id, email)\<close>, each \<^verbatim>\<open>None\<close> when its key is absent.
\<close>

definition extract_claims :: "pyval \<Rightarrow> exn + (pyval \<times> pyval)" where
  "extract_claims json =
     (case py_getitem json CLAIMS_KEY of
        Inl e \<Rightarrow> Inl e
      | Inr authorization_claims \<Rightarrow>
          (case py_contains authorization_claims EMAIL_CLAIM_KEY of
             Inl e \<Rightarrow> Inl e
           | Inr has_email \<Rightarrow>
               (case (if has_email then py_getitem authorization_claims EMAIL_CLAIM_KEY
                      else Inr PNone) of
                  Inl e \<Rightarrow> Inl e
                | Inr email \<Rightarrow>
                    (case py_contains authorization_claims ID_CLAIM_KEY of
                       Inl e \<Rightarrow> Inl e
                     | Inr has_id \<Rightarrow>
                         (case (if has_id then py_getitem authorization_claims ID_CLAIM_KEY
                                else Inr PNone) of
                            Inl e \<Rightarrow> Inl e
                          | Inr uid \<Rightarrow> Inr (uid, email))))))"

text \<open>
  \<^verbatim>\<open>extract_metadata(json)\<close> (lines 32 to 54): \<open>(id, email, resource)\<close>. The resource is
  \<open>None\<close> (Python's \<^verbatim>\<open>None\<close>) when the event has no \<^verbatim>\<open>resourceUri\<close>, and else the path cut
  by \<open>extract_resource_path\<close>.
\<close>

definition extract_metadata :: "pyval \<Rightarrow> exn + (pyval \<times> pyval \<times> string option)" where
  "extract_metadata json =
     (case py_contains json CLAIMS_KEY of
        Inl e \<Rightarrow> Inl e
      | Inr has_claims \<Rightarrow>
          (case (if has_claims then extract_claims json else Inr (PNone, PNone)) of
             Inl e \<Rightarrow> Inl e
           | Inr (uid, email) \<Rightarrow>
               (case py_contains json RESOURCE_KEY of
                  Inl e \<Rightarrow> Inl e
                | Inr has_resource \<Rightarrow>
                    if has_resource then
                      (case py_getitem json RESOURCE_KEY of
                         Inl e \<Rightarrow> Inl e
                       | Inr uri \<Rightarrow>
                           (case extract_resource_path uri of
                              Inl e \<Rightarrow> Inl e
                            | Inr resource \<Rightarrow> Inr (uid, email, Some resource)))
                    else Inr (uid, email, None))))"

definition USER_ID_TAG_NAME :: string where
  "USER_ID_TAG_NAME = ''owner_id''"

definition EMAIL_TAG_NAME :: string where
  "EMAIL_TAG_NAME = ''owner_email''"

text \<open>
  The condition of line 73,
  \<^verbatim>\<open>azure_resource and not azure_resource.tags or (USER_ID_TAG_NAME not in azure_resource.tags
  and EMAIL_TAG_NAME not in azure_resource.tags)\<close>, which Python reads as
  \<^verbatim>\<open>(a and not a.tags) or (...)\<close>. With \<^verbatim>\<open>None\<close> for the resource the left side is false and
  the right side reads \<^verbatim>\<open>None.tags\<close> (AttributeError). With an object, the right side is
  evaluated only when the tags are a non-empty dict.
\<close>

fun owner_tags_missing :: "azure_resource option \<Rightarrow> exn + bool" where
  "owner_tags_missing None = Inl AttributeError"
| "owner_tags_missing (Some found) =
     (case tags found of
        None \<Rightarrow> Inr True
      | Some existing \<Rightarrow>
          if existing = [] then Inr True
          else Inr (USER_ID_TAG_NAME \<notin> set (map fst existing)
                    \<and> EMAIL_TAG_NAME \<notin> set (map fst existing)))"

text \<open>
  Lines 65 to 70 of \<^verbatim>\<open>assign_owner\<close>: the subscription id
  (\<open>extract_subscription_id\<close>), then \<^verbatim>\<open>path = resource.split("/")\<close> with
  \<^verbatim>\<open>path[4]\<close>, \<^verbatim>\<open>f"{path[6]}/{path[7]}"\<close> and \<^verbatim>\<open>path[8]\<close>. A path that is too short
  raises IndexError at the first index out of range.
\<close>

definition resource_fields :: "string \<Rightarrow> exn + (string \<times> string \<times> string \<times> string)" where
  "resource_fields resource =
     (case extract_subscription_id resource of
        Inl e \<Rightarrow> Inl e
      | Inr subscription_id \<Rightarrow>
          (let path = str_split ''/'' resource
           in case py_index path 4 of
                Inl e \<Rightarrow> Inl e
              | Inr resource_group_name \<Rightarrow>
                  (case py_index path 6 of
                     Inl e \<Rightarrow> Inl e
                   | Inr provider \<Rightarrow>
                       (case py_index path 7 of
                          Inl e \<Rightarrow> Inl e
                        | Inr kind \<Rightarrow>
                            (case py_index path 8 of
                               Inl e \<Rightarrow> Inl e
                             | Inr resource_name \<Rightarrow>
                                 Inr (subscription_id, resource_group_name,
                                      provider @ ''/'' @ kind, resource_name))))))"

text \<open>The tag dict of lines 60 to 63.\<close>

definition owner_tags :: "pyval \<Rightarrow> pyval \<Rightarrow> (string \<times> pyval) list" where
  "owner_tags user_id email =
     [(USER_ID_TAG_NAME, user_id),
      (EMAIL_TAG_NAME, if truthy email then email else PStr ''ManagedIdentity'')]"

text \<open>
  \<^verbatim>\<open>assign_owner(user_id, email, resource)\<close> (lines 57 to 75). The result is the exception
  raised, if any, and the requests sent so far.
\<close>

definition assign_owner ::
  "sdk \<Rightarrow> pyval \<Rightarrow> pyval \<Rightarrow> string \<Rightarrow> api_call list \<Rightarrow> ((exn + unit) \<times> api_call list) option"
  where
  "assign_owner service user_id email resource calls =
     (let new_tags = owner_tags user_id email
      in case resource_fields resource of
           Inl e \<Rightarrow> Some (Inl e, calls)
         | Inr (subscription_id, resource_group_name, resource_type, resource_name) \<Rightarrow>
             (case call_until_valid_api
                     \<lparr>client_sdk = service, client_subscription = subscription_id\<rparr>
                     resource_group_name resource_type resource_name None calls of
                None \<Rightarrow> None
              | Some (Inl e, calls') \<Rightarrow> Some (Inl e, calls')
              | Some (Inr found, calls') \<Rightarrow>
                  (case owner_tags_missing found of
                     Inl e \<Rightarrow> Some (Inl e, calls')
                   | Inr False \<Rightarrow> Some (Inr (), calls')
                   | Inr True \<Rightarrow>
                       (case create_or_update_at_scope service calls' resource new_tags of
                          Some e \<Rightarrow>
                            Some (Inl e, calls' @ [TagsCreateOrUpdate resource new_tags])
                        | None \<Rightarrow>
                            Some (Inr (), calls' @ [TagsCreateOrUpdate resource new_tags])))))"

definition IGNORED_RESOURCES :: "string list" where
  "IGNORED_RESOURCES = [''Microsoft.Resources/deployments'', ''Microsoft.Resources/tags'']"

text \<open>
  What \<^verbatim>\<open>main\<close> writes to the log: \<^verbatim>\<open>logging.error\<close> with the resource as the f-string
  prints it and the exception, and the closing \<^verbatim>\<open>logging.info\<close> of the \<^verbatim>\<open>finally\<close> block
  (its timestamp is left out).
\<close>

datatype log_entry =
    LogError "string option" exn
  | LogInfo

datatype outcome =
    Returned
  | Raised exn

text \<open>
  \<^verbatim>\<open>main(event)\<close> (lines 12 to 29), on the JSON of the event. The local \<^verbatim>\<open>resource\<close> is
  bound by the assignment of line 21. When \<open>extract_metadata\<close> raises, the assignment
  does not happen, and the f-string of the \<^verbatim>\<open>except\<close> block reads an unbound local:
  UnboundLocalError leaves \<^verbatim>\<open>main\<close>, after the \<^verbatim>\<open>finally\<close> block has logged. With \<^verbatim>\<open>None\<close>
  for the resource, \<^verbatim>\<open>ignored_resource in resource\<close> raises TypeError.
\<close>

definition main ::
  "sdk \<Rightarrow> pyval \<Rightarrow> api_call list \<Rightarrow> (outcome \<times> api_call list \<times> log_entry list) option" where
  "main service event calls =
     (case extract_metadata event of
        Inl err \<Rightarrow> Some (Raised UnboundLocalError, calls, [LogInfo])
      | Inr (uid, email, resource) \<Rightarrow>
          (case resource of
             None \<Rightarrow> Some (Returned, calls, [LogError None TypeError, LogInfo])
           | Some path \<Rightarrow>
               if list_ex (\<lambda>ignored_resource. str_contains ignored_resource path)
                    IGNORED_RESOURCES
               then Some (Returned, calls, [LogInfo])
               else
                 (case assign_owner service uid email path calls of
                    None \<Rightarrow> None
                  | Some (Inl err, calls') \<Rightarrow>
                      Some (Returned, calls', [LogError (Some path) err, LogInfo])
                  | Some (Inr done, calls') \<Rightarrow> Some (Returned, calls', [LogInfo]))))"

section \<open>Reading the requests sent\<close>

text \<open>The tag writes among the requests, in order, each with its scope and tag dict.\<close>

fun tag_writes :: "api_call list \<Rightarrow> (string \<times> (string \<times> pyval) list) list" where
  "tag_writes [] = []"
| "tag_writes (ResourcesGet request # calls) = tag_writes calls"
| "tag_writes (TagsCreateOrUpdate scope written # calls) = (scope, written) # tag_writes calls"

section \<open>Services to run the handler against\<close>

text \<open>A service that answers every lookup the same way and accepts every tag write.\<close>

definition constant_service :: "(exn + azure_resource option) \<Rightarrow> sdk" where
  "constant_service answer =
     \<lparr>resources_get = (\<lambda>calls request. answer),
      create_or_update_at_scope = (\<lambda>calls scope written. None)\<rparr>"

text \<open>The message of a provider that supports two versions.\<close>

definition provider_message :: string where
  "provider_message =
     ''No registered resource provider found for location X and API version 2021-04-01. ''
     @ VERSIONS_MARKER @ ''2015-05-01-preview, 2015-06-15'' @ [CHR 0x27]
     @ ''. The supported locations are Y, Z.''"

text \<open>
  The 400 response of a provider that does not know the requested version, with the
  given message.
\<close>

definition provider_error :: "string \<Rightarrow> http_error" where
  "provider_error message =
     \<lparr>status_code = 400,
      response_json = Some (PDict [(''error'',
        PDict [(''code'', PStr ''NoRegisteredProviderFound''),
               (''message'', PStr message)])])\<rparr>"

text \<open>The message of a provider that supports a single version.\<close>

definition single_version_message :: string where
  "single_version_message =
     ''No registered resource provider found for location X and API version 2021-04-01. ''
     @ VERSIONS_MARKER @ ''2022-01-01-preview'' @ [CHR 0x27]
     @ ''. The supported locations are Y, Z.''"

text \<open>A message whose list starts with an empty entry.\<close>

definition empty_entry_message :: string where
  "empty_entry_message =
     ''No registered resource provider found for location X and API version 2021-04-01. ''
     @ VERSIONS_MARKER @ '', 2022-01-01-preview'' @ [CHR 0x27] @ ''.''"

text \<open>
  A service whose provider rejects \<open>API_VERSION\<close> with the given error and answers a
  lookup at any other version with the given answer.
\<close>

definition versioned_service :: "http_error \<Rightarrow> (exn + azure_resource option) \<Rightarrow> sdk" where
  "versioned_service error answer =
     \<lparr>resources_get = (\<lambda>calls request.
        if req_api_version request = API_VERSION then Inl (HttpResponseError error)
        else answer),
      create_or_update_at_scope = (\<lambda>calls scope written. None)\<rparr>"

text \<open>
  A service that rejects its first \<open>n\<close> requests with the given error, whatever the
  version, and gives the given answer from then on.
\<close>

definition flaky_service :: "http_error \<Rightarrow> nat \<Rightarrow> (exn + azure_resource option) \<Rightarrow> sdk" where
  "flaky_service error n answer =
     \<lparr>resources_get = (\<lambda>calls request.
        if length calls < n then Inl (HttpResponseError error) else answer),
      create_or_update_at_scope = (\<lambda>calls scope written. None)\<rparr>"

definition vm_path :: string where
  "vm_path = ''/subscriptions/S/resourceGroups/G/providers/Microsoft.Compute/virtualMachines/VM1''"

section \<open>Facts about the operations\<close>

subsection \<open>Splitting and joining\<close>

text \<open>
  The pieces of a split are never an empty list; splitting at a character gives pieces
  without that character; joining such pieces and splitting again gives them back, and
  joining the pieces of any split gives the string back.
\<close>

lemma str_split_not_Nil: "str_split sep s \<noteq> []"
  by (induction sep s rule: str_split.induct) (auto split: list.splits)

lemma str_split_no_sep: "c \<notin> set s \<Longrightarrow> str_split [c] s = [s]"
  by (induction s) auto

lemma str_split_at_sep:
  "c \<notin> set x \<Longrightarrow> str_split [c] (x @ c # rest) = x # str_split [c] rest"
  by (induction x) auto

lemma str_split_pieces: "p \<in> set (str_split [c] s) \<Longrightarrow> c \<notin> set p"
proof (induction s arbitrary: p)
  case Nil
  then show ?case by simp
next
  case (Cons a s)
  show ?case
  proof (cases "a = c")
    case True
    with Cons show ?thesis by auto
  next
    case False
    obtain q qs where q: "str_split [c] s = q # qs"
      using str_split_not_Nil [of "[c]" s] by (cases "str_split [c] s") auto
    with False Cons.prems have "p = a # q \<or> p \<in> set qs" by auto
    then show ?thesis
      using Cons.IH [of q] Cons.IH [of p] q False by auto
  qed
qed

lemma str_split_join:
  "xs \<noteq> [] \<Longrightarrow> \<forall>x\<in>set xs. c \<notin> set x \<Longrightarrow> str_split [c] (str_join [c] xs) = xs"
proof (induction "[c]" xs rule: str_join.induct)
  case 1
  then show ?case by simp
next
  case (2 x)
  then show ?case by (simp add: str_split_no_sep)
next
  case (3 x y ys)
  then show ?case using str_split_at_sep [of c x "str_join [c] (y # ys)"] by simp
qed

lemma str_join_Cons_Cons: "str_join sep ((c # p) # ps) = c # str_join sep (p # ps)"
  by (cases ps) simp_all

lemma str_join_split: "sep \<noteq> [] \<Longrightarrow> str_join sep (str_split sep s) = s"
proof (induction sep s rule: str_split.induct)
  case (1 sep)
  then show ?case by simp
next
  case (2 sep c cs)
  show ?case
  proof (cases "prefix sep (c # cs)")
    case True
    then obtain rest where rest: "c # cs = sep @ rest"
      by (auto simp: prefix_def)
    with \<open>sep \<noteq> []\<close> have dropped: "drop (length sep - 1) cs = rest"
      by (cases sep) auto
    obtain p ps where pieces: "str_split sep rest = p # ps"
      using str_split_not_Nil [of sep rest] by (cases "str_split sep rest") auto
    have "str_split sep (c # cs) = [] # p # ps"
      using True dropped pieces by simp
    moreover have "str_join sep (p # ps) = rest"
      using 2(1) [OF True \<open>sep \<noteq> []\<close>] dropped pieces by simp
    ultimately have "str_join sep (str_split sep (c # cs)) = sep @ rest"
      by simp
    with rest show ?thesis by simp
  next
    case False
    obtain p ps where "str_split sep cs = p # ps"
      using str_split_not_Nil [of sep cs] by (cases "str_split sep cs") auto
    with False 2 show ?thesis
      by (simp add: str_join_Cons_Cons)
  qed
qed

lemma split_truncated_path:
  "str_split ''/'' (str_join ''/'' (take 9 (str_split ''/'' path))) = take 9 (str_split ''/'' path)"
proof (rule str_split_join)
  show "take 9 (str_split ''/'' path) \<noteq> []"
    using str_split_not_Nil [of "''/''" path] by (cases "str_split ''/'' path") auto
  show "\<forall>x\<in>set (take 9 (str_split ''/'' path)). CHR ''/'' \<notin> set x"
    using str_split_pieces [of _ "CHR ''/''" path] by (auto dest: in_set_takeD)
qed

subsection \<open>The substring test\<close>

text \<open>
  \<open>str_contains\<close> is the contiguous-sublist relation: the block starts at some position.
\<close>

lemma str_contains_sublist: "str_contains sub s \<longleftrightarrow> sublist sub s"
  by (induction s) (simp_all add: sublist_Cons_right)

lemma str_contains_drop: "str_contains sub s \<longleftrightarrow> (\<exists>k\<le>length s. prefix sub (drop k s))"
proof (induction s)
  case Nil
  then show ?case by simp
next
  case (Cons c cs)
  have "(\<exists>k\<le>length (c # cs). prefix sub (drop k (c # cs)))
      \<longleftrightarrow> prefix sub (c # cs) \<or> (\<exists>k\<le>length cs. prefix sub (drop k cs))"
  proof
    assume "\<exists>k\<le>length (c # cs). prefix sub (drop k (c # cs))"
    then obtain k where k: "k \<le> length (c # cs)" "prefix sub (drop k (c # cs))" by blast
    then show "prefix sub (c # cs) \<or> (\<exists>k\<le>length cs. prefix sub (drop k cs))"
      by (cases k) auto
  next
    assume "prefix sub (c # cs) \<or> (\<exists>k\<le>length cs. prefix sub (drop k cs))"
    then show "\<exists>k\<le>length (c # cs). prefix sub (drop k (c # cs))"
    proof
      assume "prefix sub (c # cs)"
      then show ?thesis by (intro exI [of _ 0]) simp
    next
      assume "\<exists>k\<le>length cs. prefix sub (drop k cs)"
      then obtain k where "k \<le> length cs" "prefix sub (drop k cs)" by blast
      then show ?thesis by (intro exI [of _ "Suc k"]) simp
    qed
  qed
  with Cons show ?case by simp
qed

subsection \<open>The first listed version\<close>

text \<open>
  For a message that names its versions as a comma-separated list after the marker, with
  the marker not starting earlier, \<open>extract_version_from_error_message\<close> reads the first
  entry of the list.
\<close>

lemma str_split_first_occurrence:
  assumes "sep \<noteq> []" and "\<forall>k<length pre. \<not> prefix sep (drop k (pre @ sep @ rest))"
  shows "str_split sep (pre @ sep @ rest) = pre # str_split sep rest"
  using assms(2)
proof (induction pre)
  case Nil
  from \<open>sep \<noteq> []\<close> obtain c cs where "sep = c # cs" by (cases sep) auto
  then show ?case by simp
next
  case (Cons a pre)
  from Cons.prems have "\<not> prefix sep ((a # pre) @ sep @ rest)"
    by (metis drop0 length_greater_0_conv list.distinct(1))
  moreover have "\<forall>k<length pre. \<not> prefix sep (drop k (pre @ sep @ rest))"
    using Cons.prems by (metis Suc_less_eq append_Cons drop_Suc_Cons length_Cons)
  ultimately show ?case using Cons.IH by simp
qed

lemma prefix_before_char:
  assumes "prefix sep (x @ c # r)" and "c \<notin> set sep"
  shows "prefix sep x"
proof -
  from assms(1) consider "prefix sep x" | us where "sep = x @ us" "prefix us (c # r)"
    by (auto simp: prefix_append)
  then show ?thesis
  proof cases
    case 1
    then show ?thesis .
  next
    case 2
    with assms(2) have "us = []" by (cases us) auto
    with 2 show ?thesis by simp
  qed
qed

lemma str_split_head_through_char:
  assumes "sep \<noteq> []" and "c \<notin> set sep" and "\<not> str_contains sep v"
  shows "\<exists>w ps. str_split sep (v @ c # rest) = (v @ c # w) # ps"
  using assms(3)
proof (induction v)
  case Nil
  from assms(1,2) have "\<not> prefix sep (c # rest)"
    by (cases sep) auto
  moreover obtain p ps where "str_split sep rest = p # ps"
    using str_split_not_Nil [of sep rest] by (cases "str_split sep rest") auto
  ultimately show ?case by simp
next
  case (Cons a v)
  have "\<not> prefix sep (a # v)"
    using Cons.prems by simp
  then have "\<not> prefix sep ((a # v) @ c # rest)"
    using prefix_before_char [OF _ assms(2)] by blast
  moreover from Cons.prems have "\<not> str_contains sep v"
    by simp
  then obtain w ps where "str_split sep (v @ c # rest) = (v @ c # w) # ps"
    using Cons.IH by blast
  ultimately show ?case by simp
qed

lemma marker_starts_after:
  assumes "\<not> str_contains sep (pre @ butlast sep)"
  shows "\<forall>k<length pre. \<not> prefix sep (drop k (pre @ sep @ rest))"
proof (intro allI impI notI)
  fix k
  assume k: "k < length pre" and occ: "prefix sep (drop k (pre @ sep @ rest))"
  have whole: "drop k (pre @ sep @ rest) = drop k pre @ sep @ rest"
    using k by simp
  have "prefix (drop k pre @ butlast sep) (drop k pre @ sep @ rest)"
    by (metis append_butlast_last_id append_Nil butlast.simps(1) prefixI append.assoc same_prefix_prefix prefix_order.refl prefix_prefix)
  moreover have "length sep \<le> length (drop k pre @ butlast sep)"
    using k by simp
  ultimately have "prefix sep (drop k pre @ butlast sep)"
    using occ whole by (metis prefix_length_prefix)
  then have "prefix sep (drop k (pre @ butlast sep))"
    using k by simp
  moreover have "k \<le> length (pre @ butlast sep)"
    using k by simp
  ultimately have "str_contains sep (pre @ butlast sep)"
    unfolding str_contains_drop by blast
  with assms show False by simp
qed

lemma extract_version_first_listed:
  assumes "\<not> str_contains VERSIONS_MARKER (pre @ butlast VERSIONS_MARKER)"
    and "\<not> str_contains VERSIONS_MARKER v"
    and "CHR '','' \<notin> set v"
  shows "extract_version_from_error_message
           (PStr (pre @ VERSIONS_MARKER @ v @ '','' @ rest)) = Inr v"
proof -
  have marker: "VERSIONS_MARKER \<noteq> []" "CHR '','' \<notin> set VERSIONS_MARKER"
    by (simp_all add: VERSIONS_MARKER_def)
  have "str_split VERSIONS_MARKER (pre @ VERSIONS_MARKER @ v @ '','' @ rest)
      = pre # str_split VERSIONS_MARKER (v @ '','' @ rest)"
    using marker(1) marker_starts_after [OF assms(1)] by (rule str_split_first_occurrence)
  moreover obtain w ps where "str_split VERSIONS_MARKER (v @ '','' @ rest) = (v @ CHR '','' # w) # ps"
    using str_split_head_through_char [OF marker assms(2), of rest] by auto
  moreover have "str_split '','' (v @ CHR '','' # w) = v # str_split '','' w"
    using assms(3) by (rule str_split_at_sep)
  ultimately show ?thesis
    by (simp add: py_index_def)
qed

lemma provider_message_version:
  "extract_version_from_error_message (PStr provider_message) = Inr ''2015-05-01-preview''"
  by (simp add: provider_message_def VERSIONS_MARKER_def py_index_def)

subsection \<open>The fields of a path\<close>

text \<open>
  The four values in terms of the segments of the path.
\<close>

lemma resource_fields_of_segments:
  assumes "str_split ''/'' resource = segments" and "9 \<le> length segments"
  shows "resource_fields resource =
           Inr (segments ! 2, segments ! 4, segments ! 6 @ ''/'' @ segments ! 7, segments ! 8)"
  using assms by (simp add: resource_fields_def extract_subscription_id_def py_index_def)

lemma vm_path_fields:
  "resource_fields vm_path = Inr (''S'', ''G'', ''Microsoft.Compute/virtualMachines'', ''VM1'')"
  by (simp add: resource_fields_def vm_path_def extract_subscription_id_def py_index_def)

subsection \<open>The lookup\<close>

text \<open>
  One step of \<open>call_until_valid_api\<close> for each kind of answer, and the fact that the
  lookup sends lookups only.
\<close>

lemma tag_writes_append: "tag_writes (xs @ ys) = tag_writes xs @ tag_writes ys"
  by (induction xs rule: tag_writes.induct) auto

lemma call_until_valid_api_tag_writes_aux:
  assumes "call_until_valid_api client rg ty nm version calls = Some y"
  shows "tag_writes (snd y) = tag_writes calls"
  using assms
proof (induct rule: call_until_valid_api.raw_induct [rotated 1, consumes 1])
  case (1 f client rg ty nm version calls y)
  have step: "tag_writes (snd y) = tag_writes calls"
    if "f client rg ty nm (Some v) (calls @ [ResourcesGet r]) = Some y" for v r
    using 1(1) [OF that] by (simp add: tag_writes_append)
  show ?case using 1(2)
    by (auto simp: Let_def tag_writes_append step
        split: sum.splits exn.splits if_splits option.splits)
qed

lemma call_until_valid_api_tag_writes:
  "call_until_valid_api client rg ty nm version calls = Some (answer, calls') \<Longrightarrow>
     tag_writes calls' = tag_writes calls"
  using call_until_valid_api_tag_writes_aux [of client rg ty nm version calls "(answer, calls')"]
  by simp

lemma lookup_found:
  "resources_get (client_sdk client) calls (lookup_request client rg ty nm version) = Inr found \<Longrightarrow>
   call_until_valid_api client rg ty nm version calls =
     Some (Inr found, calls @ [ResourcesGet (lookup_request client rg ty nm version)])"
  by (subst call_until_valid_api.simps) (simp add: Let_def)

lemma lookup_with_version:
  "version_given version \<Longrightarrow>
   call_until_valid_api client rg ty nm version calls =
     Some (resources_get (client_sdk client) calls (lookup_request client rg ty nm version),
           calls @ [ResourcesGet (lookup_request client rg ty nm version)])"
  by (subst call_until_valid_api.simps) (simp add: Let_def split: sum.splits exn.splits)

lemma lookup_swallowed:
  assumes "resources_get (client_sdk client) calls (lookup_request client rg ty nm None)
             = Inl (HttpResponseError error)"
    and "status_code error \<noteq> 400"
  shows "call_until_valid_api client rg ty nm None calls =
           Some (Inr None, calls @ [ResourcesGet (lookup_request client rg ty nm None)])"
  using assms by (subst call_until_valid_api.simps) (simp add: Let_def)

lemma lookup_retry_step:
  assumes "\<not> version_given version"
    and "resources_get (client_sdk client) calls (lookup_request client rg ty nm version)
           = Inl (HttpResponseError error)"
    and "status_code error = 400"
    and "response_json error = Some error_json"
    and "py_getitem error_json ''error'' = Inr err"
    and "py_getitem err ''code'' = Inr (PStr ''NoRegisteredProviderFound'')"
    and "py_getitem err ''message'' = Inr message"
    and "extract_version_from_error_message message = Inr v"
  shows "call_until_valid_api client rg ty nm version calls =
           call_until_valid_api client rg ty nm (Some v)
             (calls @ [ResourcesGet (lookup_request client rg ty nm version)])"
  using assms by (subst call_until_valid_api.simps) (simp add: Let_def)

lemma provider_error_step:
  assumes "\<not> version_given version"
    and "resources_get (client_sdk client) calls (lookup_request client rg ty nm version)
           = Inl (HttpResponseError (provider_error message))"
    and "extract_version_from_error_message (PStr message) = Inr v"
  shows "call_until_valid_api client rg ty nm version calls =
           call_until_valid_api client rg ty nm (Some v)
             (calls @ [ResourcesGet (lookup_request client rg ty nm version)])"
proof (rule lookup_retry_step [OF assms(1,2) _ _ _ _ _ assms(3)])
  show "status_code (provider_error message) = 400"
    by (simp add: provider_error_def)
  show "response_json (provider_error message) =
      Some (PDict [(''error'', PDict [(''code'', PStr ''NoRegisteredProviderFound''),
                                      (''message'', PStr message)])])"
    by (simp add: provider_error_def)
  show "py_getitem (PDict [(''error'', PDict [(''code'', PStr ''NoRegisteredProviderFound''),
                                              (''message'', PStr message)])]) ''error'' =
      Inr (PDict [(''code'', PStr ''NoRegisteredProviderFound''), (''message'', PStr message)])"
    by simp
  show "py_getitem (PDict [(''code'', PStr ''NoRegisteredProviderFound''),
                           (''message'', PStr message)]) ''code'' =
      Inr (PStr ''NoRegisteredProviderFound'')"
    by simp
  show "py_getitem (PDict [(''code'', PStr ''NoRegisteredProviderFound''),
                           (''message'', PStr message)]) ''message'' = Inr (PStr message)"
    by simp
qed

lemma lookup_retries_with_first_listed:
  assumes "resources_get (client_sdk client) calls (lookup_request client rg ty nm None)
             = Inl (HttpResponseError error)"
    and "status_code error = 400"
    and "response_json error = Some error_json"
    and "py_getitem error_json ''error'' = Inr err"
    and "py_getitem err ''code'' = Inr (PStr ''NoRegisteredProviderFound'')"
    and "py_getitem err ''message'' = Inr (PStr (pre @ VERSIONS_MARKER @ v @ '','' @ rest))"
    and "\<not> str_contains VERSIONS_MARKER (pre @ butlast VERSIONS_MARKER)"
    and "\<not> str_contains VERSIONS_MARKER v"
    and "CHR '','' \<notin> set v"
    and "v \<noteq> []"
  shows "call_until_valid_api client rg ty nm None calls =
           Some (resources_get (client_sdk client)
                   (calls @ [ResourcesGet (lookup_request client rg ty nm None)])
                   (lookup_request client rg ty nm (Some v)),
                 calls @ [ResourcesGet (lookup_request client rg ty nm None),
                          ResourcesGet (lookup_request client rg ty nm (Some v))])"
proof -
  have parsed: "extract_version_from_error_message
      (PStr (pre @ VERSIONS_MARKER @ v @ '','' @ rest)) = Inr v"
    using assms(7-9) by (rule extract_version_first_listed)
  have "call_until_valid_api client rg ty nm None calls =
          call_until_valid_api client rg ty nm (Some v)
            (calls @ [ResourcesGet (lookup_request client rg ty nm None)])"
    using _ assms(1-6) parsed by (rule lookup_retry_step) simp
  also have "\<dots> = Some (resources_get (client_sdk client)
                        (calls @ [ResourcesGet (lookup_request client rg ty nm None)])
                        (lookup_request client rg ty nm (Some v)),
                      (calls @ [ResourcesGet (lookup_request client rg ty nm None)])
                        @ [ResourcesGet (lookup_request client rg ty nm (Some v))])"
    using \<open>v \<noteq> []\<close> by (intro lookup_with_version) simp
  finally show ?thesis by simp
qed

lemma single_version_message_version:
  "extract_version_from_error_message (PStr single_version_message) =
     Inr (''2022-01-01-preview'' @ [CHR 0x27] @ ''. The supported locations are Y'')"
  by (simp add: single_version_message_def VERSIONS_MARKER_def py_index_def)

lemma empty_entry_message_version:
  "extract_version_from_error_message (PStr empty_entry_message) = Inr []"
  by (simp add: empty_entry_message_def VERSIONS_MARKER_def py_index_def)

subsection \<open>Extraction, assignment and the handler\<close>

text \<open>
  What a run can add to the tag writes, and what extraction gives on events that lack a
  key.
\<close>

lemma assign_owner_tag_writes:
  assumes "assign_owner service user_id email resource calls = Some (result, calls')"
  shows "tag_writes calls' = tag_writes calls
         \<or> tag_writes calls' = tag_writes calls @ [(resource, owner_tags user_id email)]"
  using assms
  by (auto simp: assign_owner_def Let_def tag_writes_append
      split: sum.splits prod.splits option.splits bool.splits
      dest: call_until_valid_api_tag_writes)

lemma assign_owner_untagged:
  assumes "resource_fields resource = Inr (s, g, t, n)"
  shows "assign_owner (constant_service (Inr (Some \<lparr>tags = None\<rparr>))) uid email resource calls =
     Some (Inr (),
           calls @ [ResourcesGet \<lparr>req_subscription = s, req_group = g, req_type = t,
                      req_name = n, req_api_version = ''2021-04-01''\<rparr>,
                    TagsCreateOrUpdate resource (owner_tags uid email)])"
proof -
  let ?service = "constant_service (Inr (Some \<lparr>tags = None\<rparr>))"
  let ?client = "\<lparr>client_sdk = ?service, client_subscription = s\<rparr>"
  have "call_until_valid_api ?client g t n None calls =
      Some (Inr (Some \<lparr>tags = None\<rparr>),
            calls @ [ResourcesGet (lookup_request ?client g t n None)])"
    by (rule lookup_found) (simp add: constant_service_def)
  with assms show ?thesis
    by (simp add: assign_owner_def lookup_request_def API_VERSION_def constant_service_def)
qed

lemma py_getitem_Inr:
  assumes "py_getitem container key = Inr v"
  obtains kvs where "container = PDict kvs" and "map_of kvs key = Some v"
  using assms by (cases container) (auto split: option.splits)

lemma py_contains_present:
  "map_of kvs key = Some v \<Longrightarrow> py_contains (PDict kvs) key = Inr True"
  by (auto dest: map_of_SomeD intro: rev_image_eqI)

lemma extract_metadata_email:
  assumes "py_getitem event CLAIMS_KEY = Inr claims"
    and "py_getitem claims EMAIL_CLAIM_KEY = Inr email"
    and "extract_metadata event = Inr (uid, e, r)"
  shows "e = email"
proof -
  from assms(1) obtain kvs where event: "event = PDict kvs"
    and claims: "map_of kvs CLAIMS_KEY = Some claims"
    by (rule py_getitem_Inr)
  from assms(2) obtain cl where cl: "claims = PDict cl"
    and mail: "map_of cl EMAIL_CLAIM_KEY = Some email"
    by (rule py_getitem_Inr)
  have has_claims: "py_contains (PDict kvs) CLAIMS_KEY = Inr True"
    using claims by (rule py_contains_present)
  have has_email: "py_contains (PDict cl) EMAIL_CLAIM_KEY = Inr True"
    using mail by (rule py_contains_present)
  have "snd p = email" if "extract_claims event = Inr p" for p
    using that claims mail has_email cl unfolding extract_claims_def event
    by (auto simp: map_of_eq_None_iff split: sum.splits option.splits if_splits)
  then show ?thesis
    using assms(3) has_claims unfolding extract_metadata_def event
    by (auto split: sum.splits if_splits prod.splits)
qed

lemma extract_metadata_no_claims:
  assumes "CLAIMS_KEY \<notin> set (map fst kvs)" and "map_of kvs RESOURCE_KEY = Some (PStr uri)"
  shows "extract_metadata (PDict kvs) =
           Inr (PNone, PNone, Some (str_join ''/'' (take 9 (str_split ''/'' uri))))"
  using assms py_contains_present [OF assms(2)] by (simp add: extract_metadata_def)

lemma extract_metadata_no_resource:
  assumes "RESOURCE_KEY \<notin> set (map fst kvs)"
    and "CLAIMS_KEY \<notin> set (map fst kvs) \<or> (\<exists>claims. map_of kvs CLAIMS_KEY = Some (PDict claims))"
  shows "\<exists>uid email. extract_metadata (PDict kvs) = Inr (uid, email, None)"
proof (cases "CLAIMS_KEY \<in> set (map fst kvs)")
  case False
  with assms(1) show ?thesis by (simp add: extract_metadata_def)
next
  case True
  with assms(2) obtain claims where claims: "map_of kvs CLAIMS_KEY = Some (PDict claims)"
    by blast
  have "\<exists>uid email. extract_claims (PDict kvs) = Inr (uid, email)"
    using claims
    by (auto simp: extract_claims_def map_of_eq_None_iff split: option.splits)
  with True assms(1) show ?thesis by (auto simp: extract_metadata_def)
qed

lemma main_tag_writes:
  assumes "main service event calls = Some (out, calls', logs)"
  shows "tag_writes calls' = tag_writes calls
         \<or> (\<exists>uid email resource. extract_metadata event = Inr (uid, email, Some resource)
               \<and> tag_writes calls' = tag_writes calls @ [(resource, owner_tags uid email)])"
  using assms
  by (auto simp: main_def split: sum.splits prod.splits option.splits if_splits
      dest!: assign_owner_tag_writes)

lemma main_without_resource:
  "extract_metadata event = Inr (uid, email, None) \<Longrightarrow>
   main service event calls = Some (Returned, calls, [LogError None TypeError, LogInfo])"
  by (simp add: main_def)

section \<open>The version fallback\<close>

text \<open>
  Claim C1 asks that, after a 400 with code \<^verbatim>\<open>NoRegisteredProviderFound\<close> and a message
  that lists the supported versions, the lookup is sent exactly once more, with the
  first version listed. \<open>extract_version_from_error_message\<close> takes the text after the
  marker up to the first comma of the message. For a provider that lists a single
  version there is no comma inside the list: the text taken runs past the closing quote
  into the next sentence, and the retry is sent with that text as its version. For a
  list whose first entry is empty the text taken is empty, the retry is sent with
  \<open>API_VERSION\<close> again and counts as started without a version, so a second failure is
  retried again: three lookups when the service fails twice.
\<close>

theorem retry_with_misread_version:
  "extract_version_from_error_message (PStr single_version_message) =
     Inr (''2022-01-01-preview'' @ [CHR 0x27] @ ''. The supported locations are Y'')
   \<and> call_until_valid_api
       \<lparr>client_sdk = versioned_service (provider_error single_version_message) answer,
        client_subscription = ''S''\<rparr>
       ''G'' ''Microsoft.Compute/virtualMachines'' ''VM1'' None [] =
     Some (answer,
           [ResourcesGet \<lparr>req_subscription = ''S'', req_group = ''G'',
              req_type = ''Microsoft.Compute/virtualMachines'', req_name = ''VM1'',
              req_api_version = ''2021-04-01''\<rparr>,
            ResourcesGet \<lparr>req_subscription = ''S'', req_group = ''G'',
              req_type = ''Microsoft.Compute/virtualMachines'', req_name = ''VM1'',
              req_api_version =
                ''2022-01-01-preview'' @ [CHR 0x27] @ ''. The supported locations are Y''\<rparr>])
   \<and> extract_version_from_error_message (PStr empty_entry_message) = Inr []
   \<and> call_until_valid_api
       \<lparr>client_sdk = flaky_service (provider_error empty_entry_message) 2
          (Inr (Some \<lparr>tags = None\<rparr>)),
        client_subscription = ''S''\<rparr>
       ''G'' ''Microsoft.Compute/virtualMachines'' ''VM1'' None [] =
     Some (Inr (Some \<lparr>tags = None\<rparr>),
           [ResourcesGet \<lparr>req_subscription = ''S'', req_group = ''G'',
              req_type = ''Microsoft.Compute/virtualMachines'', req_name = ''VM1'',
              req_api_version = ''2021-04-01''\<rparr>,
            ResourcesGet \<lparr>req_subscription = ''S'', req_group = ''G'',
              req_type = ''Microsoft.Compute/virtualMachines'', req_name = ''VM1'',
              req_api_version = ''2021-04-01''\<rparr>,
            ResourcesGet \<lparr>req_subscription = ''S'', req_group = ''G'',
              req_type = ''Microsoft.Compute/virtualMachines'', req_name = ''VM1'',
              req_api_version = ''2021-04-01''\<rparr>])"
proof (intro conjI)
  let ?misread = "''2022-01-01-preview'' @ [CHR 0x27] @ ''. The supported locations are Y''"
  let ?client = "\<lparr>client_sdk = versioned_service (provider_error single_version_message) answer,
                  client_subscription = ''S''\<rparr>"
  let ?ty = "''Microsoft.Compute/virtualMachines''"
  show parsed: "extract_version_from_error_message (PStr single_version_message) = Inr ?misread"
    by (rule single_version_message_version)
  have "call_until_valid_api ?client ''G'' ?ty ''VM1'' None [] =
      call_until_valid_api ?client ''G'' ?ty ''VM1'' (Some ?misread)
        ([] @ [ResourcesGet (lookup_request ?client ''G'' ?ty ''VM1'' None)])"
    by (rule provider_error_step [OF _ _ parsed])
      (simp_all add: versioned_service_def lookup_request_def)
  also have "\<dots> = Some (resources_get (client_sdk ?client)
        ([] @ [ResourcesGet (lookup_request ?client ''G'' ?ty ''VM1'' None)])
        (lookup_request ?client ''G'' ?ty ''VM1'' (Some ?misread)),
      ([] @ [ResourcesGet (lookup_request ?client ''G'' ?ty ''VM1'' None)])
        @ [ResourcesGet (lookup_request ?client ''G'' ?ty ''VM1'' (Some ?misread))])"
    by (rule lookup_with_version) simp
  finally show "call_until_valid_api ?client ''G'' ?ty ''VM1'' None [] =
     Some (answer,
           [ResourcesGet \<lparr>req_subscription = ''S'', req_group = ''G'',
              req_type = ?ty, req_name = ''VM1'', req_api_version = ''2021-04-01''\<rparr>,
            ResourcesGet \<lparr>req_subscription = ''S'', req_group = ''G'',
              req_type = ?ty, req_name = ''VM1'', req_api_version = ?misread\<rparr>])"
    by (simp add: lookup_request_def versioned_service_def API_VERSION_def)
next
  let ?found = "Inr (Some \<lparr>tags = None\<rparr>) :: exn + azure_resource option"
  let ?client = "\<lparr>client_sdk = flaky_service (provider_error empty_entry_message) 2 ?found,
                  client_subscription = ''S''\<rparr>"
  let ?ty = "''Microsoft.Compute/virtualMachines''"
  let ?get = "ResourcesGet \<lparr>req_subscription = ''S'', req_group = ''G'',
              req_type = ?ty, req_name = ''VM1'', req_api_version = ''2021-04-01''\<rparr>"
  show parsed: "extract_version_from_error_message (PStr empty_entry_message) = Inr []"
    by (rule empty_entry_message_version)
  have request: "lookup_request ?client ''G'' ?ty ''VM1'' version =
      \<lparr>req_subscription = ''S'', req_group = ''G'',
       req_type = ?ty, req_name = ''VM1'', req_api_version = ''2021-04-01''\<rparr>"
    if "\<not> version_given version" for version
    using that by (cases version) (simp_all add: lookup_request_def API_VERSION_def)
  have rejected: "resources_get (client_sdk ?client) calls
      (lookup_request ?client ''G'' ?ty ''VM1'' version) =
      Inl (HttpResponseError (provider_error empty_entry_message))"
    if "length calls < 2" for calls version
    using that by (simp add: flaky_service_def)
  have "call_until_valid_api ?client ''G'' ?ty ''VM1'' None [] =
      call_until_valid_api ?client ''G'' ?ty ''VM1'' (Some [])
        ([] @ [ResourcesGet (lookup_request ?client ''G'' ?ty ''VM1'' None)])"
    by (rule provider_error_step [OF _ rejected parsed]) simp_all
  also have "\<dots> = call_until_valid_api ?client ''G'' ?ty ''VM1'' (Some []) [?get]"
    by (simp add: request)
  also have "\<dots> = call_until_valid_api ?client ''G'' ?ty ''VM1'' (Some [])
        ([?get] @ [ResourcesGet (lookup_request ?client ''G'' ?ty ''VM1'' (Some []))])"
    by (rule provider_error_step [OF _ rejected parsed]) simp_all
  also have "\<dots> = call_until_valid_api ?client ''G'' ?ty ''VM1'' (Some []) [?get, ?get]"
    by (simp add: request)
  also have "\<dots> = Some (?found,
        [?get, ?get] @ [ResourcesGet (lookup_request ?client ''G'' ?ty ''VM1'' (Some []))])"
    by (rule lookup_found) (simp add: flaky_service_def)
  also have "\<dots> = Some (?found, [?get, ?get, ?get])"
    by (simp add: request)
  finally show "call_until_valid_api ?client ''G'' ?ty ''VM1'' None [] =
      Some (?found, [?get, ?get, ?get])" .
qed

text \<open>
  Claim C2 asks that an HTTP error of the first lookup that is not the 400 with code
  \<^verbatim>\<open>NoRegisteredProviderFound\<close> leaves \<open>call_until_valid_api\<close> as an exception. It does
  not: for a 404 the \<^verbatim>\<open>except\<close> block ends without a \<^verbatim>\<open>raise\<close>, the function returns
  \<^verbatim>\<open>None\<close>, and \<open>main\<close> then logs the AttributeError of \<^verbatim>\<open>None.tags\<close> in place of the
  HTTP error.
\<close>

theorem http_error_swallowed:
  "call_until_valid_api
     \<lparr>client_sdk = constant_service
        (Inl (HttpResponseError \<lparr>status_code = 404, response_json = body\<rparr>)),
      client_subscription = subscription_id\<rparr>
     rg ty nm None calls =
   Some (Inr None,
         calls @ [ResourcesGet \<lparr>req_subscription = subscription_id, req_group = rg,
                    req_type = ty, req_name = nm, req_api_version = ''2021-04-01''\<rparr>])
   \<and> main (constant_service (Inl (HttpResponseError \<lparr>status_code = 404, response_json = body\<rparr>)))
       (PDict [(''claims'', PDict []), (''resourceUri'', PStr vm_path)]) [] =
     Some (Returned,
           [ResourcesGet \<lparr>req_subscription = ''S'', req_group = ''G'',
              req_type = ''Microsoft.Compute/virtualMachines'', req_name = ''VM1'',
              req_api_version = ''2021-04-01''\<rparr>],
           [LogError (Some vm_path) AttributeError, LogInfo])"
proof (intro conjI)
  let ?error = "\<lparr>status_code = 404, response_json = body\<rparr>"
  let ?service = "constant_service (Inl (HttpResponseError ?error))"
  have swallowed: "call_until_valid_api \<lparr>client_sdk = ?service, client_subscription = s\<rparr>
      g t n None cs =
    Some (Inr None, cs @ [ResourcesGet \<lparr>req_subscription = s, req_group = g,
                    req_type = t, req_name = n, req_api_version = ''2021-04-01''\<rparr>])"
    for s g t n cs
    using lookup_swallowed [of "\<lparr>client_sdk = ?service, client_subscription = s\<rparr>" cs g t n ?error]
    by (simp add: constant_service_def lookup_request_def API_VERSION_def)
  show "call_until_valid_api \<lparr>client_sdk = ?service, client_subscription = subscription_id\<rparr>
     rg ty nm None calls =
   Some (Inr None,
         calls @ [ResourcesGet \<lparr>req_subscription = subscription_id, req_group = rg,
                    req_type = ty, req_name = nm, req_api_version = ''2021-04-01''\<rparr>])"
    by (rule swallowed)
  have extracted: "extract_metadata (PDict [(''claims'', PDict []), (''resourceUri'', PStr vm_path)])
      = Inr (PNone, PNone, Some vm_path)"
    by (simp add: extract_metadata_def extract_claims_def CLAIMS_KEY_def RESOURCE_KEY_def
        EMAIL_CLAIM_KEY_def ID_CLAIM_KEY_def vm_path_def)
  have kept: "\<not> list_ex (\<lambda>ignored_resource. str_contains ignored_resource vm_path) IGNORED_RESOURCES"
    by (simp add: IGNORED_RESOURCES_def vm_path_def)
  have "assign_owner ?service PNone PNone vm_path [] =
      Some (Inl AttributeError, [ResourcesGet \<lparr>req_subscription = ''S'', req_group = ''G'',
              req_type = ''Microsoft.Compute/virtualMachines'', req_name = ''VM1'',
              req_api_version = ''2021-04-01''\<rparr>])"
    by (simp add: assign_owner_def vm_path_fields swallowed)
  with extracted kept show "main ?service
       (PDict [(''claims'', PDict []), (''resourceUri'', PStr vm_path)]) [] =
     Some (Returned,
           [ResourcesGet \<lparr>req_subscription = ''S'', req_group = ''G'',
              req_type = ''Microsoft.Compute/virtualMachines'', req_name = ''VM1'',
              req_api_version = ''2021-04-01''\<rparr>],
           [LogError (Some vm_path) AttributeError, LogInfo])"
    by (simp add: main_def)
qed

section \<open>The resource path\<close>

text \<open>
  Claim C8. The path
  \<^verbatim>\<open>/subscriptions/S/resourceGroups/G/providers/Microsoft.Compute/virtualMachines/VM1/extra\<close>
  is cut to its first nine segments, and the cut path gives subscription id \<^verbatim>\<open>S\<close>, resource
  group \<^verbatim>\<open>G\<close>, resource type \<^verbatim>\<open>Microsoft.Compute/virtualMachines\<close> and resource name
  \<^verbatim>\<open>VM1\<close>. For every path, the segments of the cut path are the first nine segments of
  the path (the segment before the leading slash is segment 0), and when there are nine
  of them the four values are segment 2, segment 4, segments 6 and 7 joined by a slash,
  and segment 8.
\<close>

theorem resource_path_fields:
  "extract_resource_path
     (PStr ''/subscriptions/S/resourceGroups/G/providers/Microsoft.Compute/virtualMachines/VM1/extra'')
     = Inr ''/subscriptions/S/resourceGroups/G/providers/Microsoft.Compute/virtualMachines/VM1''
   \<and> resource_fields
       ''/subscriptions/S/resourceGroups/G/providers/Microsoft.Compute/virtualMachines/VM1''
     = Inr (''S'', ''G'', ''Microsoft.Compute/virtualMachines'', ''VM1'')
   \<and> (\<exists>resource.
         extract_resource_path (PStr path) = Inr resource
         \<and> str_split ''/'' resource = take 9 (str_split ''/'' path)
         \<and> (9 \<le> length (str_split ''/'' path) \<longrightarrow>
              resource_fields resource =
                Inr (str_split ''/'' path ! 2,
                     str_split ''/'' path ! 4,
                     str_split ''/'' path ! 6 @ ''/'' @ str_split ''/'' path ! 7,
                     str_split ''/'' path ! 8)))"
proof (intro conjI)
  show "extract_resource_path
     (PStr ''/subscriptions/S/resourceGroups/G/providers/Microsoft.Compute/virtualMachines/VM1/extra'')
     = Inr ''/subscriptions/S/resourceGroups/G/providers/Microsoft.Compute/virtualMachines/VM1''"
    by simp
  show "resource_fields
       ''/subscriptions/S/resourceGroups/G/providers/Microsoft.Compute/virtualMachines/VM1''
     = Inr (''S'', ''G'', ''Microsoft.Compute/virtualMachines'', ''VM1'')"
    using vm_path_fields by (simp add: vm_path_def)
  let ?segments = "str_split ''/'' path"
  let ?resource = "str_join ''/'' (take 9 ?segments)"
  have cut: "str_split ''/'' ?resource = take 9 ?segments"
    by (rule split_truncated_path)
  have "resource_fields ?resource =
          Inr (?segments ! 2, ?segments ! 4, ?segments ! 6 @ ''/'' @ ?segments ! 7, ?segments ! 8)"
    if "9 \<le> length ?segments"
    using resource_fields_of_segments [OF cut] that by simp
  with cut show "\<exists>resource.
         extract_resource_path (PStr path) = Inr resource
         \<and> str_split ''/'' resource = take 9 (str_split ''/'' path)
         \<and> (9 \<le> length (str_split ''/'' path) \<longrightarrow>
              resource_fields resource =
                Inr (str_split ''/'' path ! 2,
                     str_split ''/'' path ! 4,
                     str_split ''/'' path ! 6 @ ''/'' @ str_split ''/'' path ! 7,
                     str_split ''/'' path ! 8))"
    by (intro exI [of _ ?resource]) simp
qed

theorem resource_path_fields_witness:
  "9 \<le> length (str_split ''/''
       ''/subscriptions/A/resourceGroups/B/providers/Microsoft.Storage/storageAccounts/C/blobServices/default'')
   \<and> (\<exists>resource.
        extract_resource_path (PStr
          ''/subscriptions/A/resourceGroups/B/providers/Microsoft.Storage/storageAccounts/C/blobServices/default'')
          = Inr resource
        \<and> resource_fields resource = Inr (''A'', ''B'', ''Microsoft.Storage/storageAccounts'', ''C''))"
proof -
  let ?path = "''/subscriptions/A/resourceGroups/B/providers/Microsoft.Storage/storageAccounts/C/blobServices/default''"
  have segments: "str_split ''/'' ?path =
      [[], ''subscriptions'', ''A'', ''resourceGroups'', ''B'', ''providers'',
       ''Microsoft.Storage'', ''storageAccounts'', ''C'', ''blobServices'', ''default'']"
    by simp
  show ?thesis
    using resource_path_fields [of ?path] unfolding segments by auto
qed

section \<open>Assigning the owner\<close>

text \<open>
  Claim C4. When the lookup returns a resource whose tag dict already has the key
  \<^verbatim>\<open>owner_id\<close> or the key \<^verbatim>\<open>owner_email\<close>, \<open>assign_owner\<close> returns without a tag write:
  the requests sent are those of the lookup, and the tag writes are the ones that were
  there before the call.
\<close>

theorem assign_owner_keeps_owner_tags:
  assumes "resource_fields resource = Inr (subscription_id, rg, ty, nm)"
    and "call_until_valid_api \<lparr>client_sdk = service, client_subscription = subscription_id\<rparr>
           rg ty nm None calls = Some (Inr (Some found), calls')"
    and "tags found = Some existing"
    and "''owner_id'' \<in> set (map fst existing) \<or> ''owner_email'' \<in> set (map fst existing)"
  shows "assign_owner service user_id email resource calls = Some (Inr (), calls')
         \<and> tag_writes calls' = tag_writes calls"
proof -
  from assms(4) have "existing \<noteq> []" by auto
  with assms(3,4) have "owner_tags_missing (Some found) = Inr False"
    by (simp add: USER_ID_TAG_NAME_def EMAIL_TAG_NAME_def)
  with assms(1,2) have "assign_owner service user_id email resource calls = Some (Inr (), calls')"
    by (simp add: assign_owner_def)
  moreover have "tag_writes calls' = tag_writes calls"
    using assms(2) by (rule call_until_valid_api_tag_writes)
  ultimately show ?thesis by simp
qed

theorem assign_owner_keeps_owner_tags_witness:
  "assign_owner
     (constant_service (Inr (Some \<lparr>tags = Some [(''env'', ''prod''), (''owner_email'', ''a@b.c'')]\<rparr>)))
     (PStr ''id-1'') (PStr ''x@y.z'') vm_path [] =
   Some (Inr (), [ResourcesGet \<lparr>req_subscription = ''S'', req_group = ''G'',
                    req_type = ''Microsoft.Compute/virtualMachines'', req_name = ''VM1'',
                    req_api_version = ''2021-04-01''\<rparr>])"
proof -
  let ?found = "\<lparr>tags = Some [(''env'', ''prod''), (''owner_email'', ''a@b.c'')]\<rparr>"
  let ?service = "constant_service (Inr (Some ?found))"
  let ?client = "\<lparr>client_sdk = ?service, client_subscription = ''S''\<rparr>"
  have lookup: "call_until_valid_api ?client ''G'' ''Microsoft.Compute/virtualMachines'' ''VM1''
      None [] = Some (Inr (Some ?found),
        [] @ [ResourcesGet (lookup_request ?client ''G'' ''Microsoft.Compute/virtualMachines''
                ''VM1'' None)])"
    by (rule lookup_found) (simp add: constant_service_def)
  have present: "''owner_id'' \<in> set (map fst [(''env'', ''prod''), (''owner_email'', ''a@b.c'')])
      \<or> ''owner_email'' \<in> set (map fst [(''env'', ''prod''), (''owner_email'', ''a@b.c'')])"
    by simp
  have existing: "tags ?found = Some [(''env'', ''prod''), (''owner_email'', ''a@b.c'')]"
    by simp
  show ?thesis
    using assign_owner_keeps_owner_tags [OF vm_path_fields lookup existing present]
    by (simp add: lookup_request_def API_VERSION_def)
qed



text \<open>
  Claim C9. A tag write happens only when the lookup produced a resource: whenever a run
  of \<open>assign_owner\<close> adds a tag write, the path gave its four fields, the lookup
  returned a resource object, and the write is the one request after the lookup. When
  the lookup returns \<^verbatim>\<open>None\<close>, \<open>assign_owner\<close> raises AttributeError at the test of
  line 73 and \<^verbatim>\<open>create_or_update_at_scope\<close> is not called.
\<close>

theorem tag_write_needs_resource:
  "(assign_owner service user_id email resource calls = Some (result, calls'') \<longrightarrow>
      tag_writes calls'' \<noteq> tag_writes calls \<longrightarrow>
      (\<exists>subscription_id rg ty nm found calls'.
         resource_fields resource = Inr (subscription_id, rg, ty, nm)
         \<and> call_until_valid_api \<lparr>client_sdk = service, client_subscription = subscription_id\<rparr>
               rg ty nm None calls = Some (Inr (Some found), calls')
         \<and> calls'' = calls' @ [TagsCreateOrUpdate resource (owner_tags user_id email)]))
   \<and> (resource_fields resource = Inr (s, g, t, n) \<longrightarrow>
      call_until_valid_api \<lparr>client_sdk = service, client_subscription = s\<rparr>
        g t n None calls = Some (Inr None, mid) \<longrightarrow>
      assign_owner service user_id email resource calls = Some (Inl AttributeError, mid)
      \<and> tag_writes mid = tag_writes calls)"
proof (intro conjI impI)
  assume run: "assign_owner service user_id email resource calls = Some (result, calls'')"
    and new: "tag_writes calls'' \<noteq> tag_writes calls"
  from run obtain subscription_id rg ty nm
    where fields: "resource_fields resource = Inr (subscription_id, rg, ty, nm)"
    using new by (cases "resource_fields resource") (auto simp: assign_owner_def)
  let ?client = "\<lparr>client_sdk = service, client_subscription = subscription_id\<rparr>"
  from run fields obtain answer calls'
    where lookup: "call_until_valid_api ?client rg ty nm None calls = Some (answer, calls')"
    by (cases "call_until_valid_api ?client rg ty nm None calls") (auto simp: assign_owner_def)
  have kept: "tag_writes calls' = tag_writes calls"
    using lookup by (rule call_until_valid_api_tag_writes)
  have "\<exists>found. answer = Inr (Some found)
      \<and> calls'' = calls' @ [TagsCreateOrUpdate resource (owner_tags user_id email)]"
  proof (cases answer)
    case (Inl e)
    with run fields lookup new kept show ?thesis
      by (simp add: assign_owner_def)
  next
    case (Inr fetched)
    show ?thesis
    proof (cases fetched)
      case None
      with Inr run fields lookup new kept show ?thesis
        by (simp add: assign_owner_def)
    next
      case (Some found)
      with Inr run fields lookup new kept show ?thesis
        by (auto simp: assign_owner_def Let_def
            split: sum.splits bool.splits option.splits if_splits)
    qed
  qed
  then obtain found where "answer = Inr (Some found)"
    and "calls'' = calls' @ [TagsCreateOrUpdate resource (owner_tags user_id email)]"
    by blast
  with fields lookup show "\<exists>subscription_id rg ty nm found calls'.
         resource_fields resource = Inr (subscription_id, rg, ty, nm)
         \<and> call_until_valid_api \<lparr>client_sdk = service, client_subscription = subscription_id\<rparr>
               rg ty nm None calls = Some (Inr (Some found), calls')
         \<and> calls'' = calls' @ [TagsCreateOrUpdate resource (owner_tags user_id email)]"
    by blast
next
  assume fields: "resource_fields resource = Inr (s, g, t, n)"
    and lookup: "call_until_valid_api \<lparr>client_sdk = service, client_subscription = s\<rparr>
        g t n None calls = Some (Inr None, mid)"
  then show "assign_owner service user_id email resource calls = Some (Inl AttributeError, mid)"
    by (simp add: assign_owner_def)
  from lookup show "tag_writes mid = tag_writes calls"
    by (rule call_until_valid_api_tag_writes)
qed

theorem tag_write_needs_resource_witness:
  "(\<exists>found calls'.
      call_until_valid_api
        \<lparr>client_sdk = constant_service (Inr (Some \<lparr>tags = None\<rparr>)), client_subscription = ''S''\<rparr>
        ''G'' ''Microsoft.Compute/virtualMachines'' ''VM1'' None [] =
      Some (Inr (Some found), calls'))
   \<and> assign_owner
       (constant_service (Inl (HttpResponseError \<lparr>status_code = 404, response_json = None\<rparr>)))
       (PStr ''id-1'') (PStr ''x@y.z'') vm_path [] =
     Some (Inl AttributeError,
           [ResourcesGet \<lparr>req_subscription = ''S'', req_group = ''G'',
              req_type = ''Microsoft.Compute/virtualMachines'', req_name = ''VM1'',
              req_api_version = ''2021-04-01''\<rparr>])"
proof (intro conjI)
  let ?service = "constant_service (Inr (Some \<lparr>tags = None\<rparr>))"
  let ?get = "ResourcesGet \<lparr>req_subscription = ''S'', req_group = ''G'',
      req_type = ''Microsoft.Compute/virtualMachines'', req_name = ''VM1'',
      req_api_version = ''2021-04-01''\<rparr>"
  let ?calls = "[?get, TagsCreateOrUpdate vm_path (owner_tags (PStr ''id-1'') PNone)]"
  have run: "assign_owner ?service (PStr ''id-1'') PNone vm_path [] = Some (Inr (), ?calls)"
    using assign_owner_untagged [OF vm_path_fields, of "PStr ''id-1''" PNone "[]"] by simp
  have new: "tag_writes ?calls \<noteq> tag_writes []"
    by simp
  from tag_write_needs_resource
    [of ?service "PStr ''id-1''" PNone vm_path "[]" "Inr ()" ?calls] run new
  obtain subscription_id rg ty nm found calls'
    where fields: "resource_fields vm_path = Inr (subscription_id, rg, ty, nm)"
      and lookup: "call_until_valid_api
          \<lparr>client_sdk = ?service, client_subscription = subscription_id\<rparr>
          rg ty nm None [] = Some (Inr (Some found), calls')"
    by blast
  from fields vm_path_fields
  have "subscription_id = ''S'' \<and> rg = ''G'' \<and> ty = ''Microsoft.Compute/virtualMachines''
      \<and> nm = ''VM1''"
    by simp
  with lookup show "\<exists>found calls'.
      call_until_valid_api \<lparr>client_sdk = ?service, client_subscription = ''S''\<rparr>
        ''G'' ''Microsoft.Compute/virtualMachines'' ''VM1'' None [] =
      Some (Inr (Some found), calls')"
    by blast
next
  let ?error = "\<lparr>status_code = 404, response_json = None\<rparr>"
  let ?service = "constant_service (Inl (HttpResponseError ?error))"
  let ?client = "\<lparr>client_sdk = ?service, client_subscription = ''S''\<rparr>"
  have lookup: "call_until_valid_api ?client ''G'' ''Microsoft.Compute/virtualMachines'' ''VM1''
      None [] = Some (Inr None,
        [] @ [ResourcesGet (lookup_request ?client ''G'' ''Microsoft.Compute/virtualMachines''
                ''VM1'' None)])"
    by (rule lookup_swallowed [of _ _ _ _ _ ?error]) (simp_all add: constant_service_def)
  from tag_write_needs_resource
    [of ?service "PStr ''id-1''" "PStr ''x@y.z''" vm_path "[]" _ _ "''S''" "''G''"
      "''Microsoft.Compute/virtualMachines''" "''VM1''"] vm_path_fields lookup
  show "assign_owner ?service (PStr ''id-1'') (PStr ''x@y.z'') vm_path [] =
     Some (Inl AttributeError,
           [ResourcesGet \<lparr>req_subscription = ''S'', req_group = ''G'',
              req_type = ''Microsoft.Compute/virtualMachines'', req_name = ''VM1'',
              req_api_version = ''2021-04-01''\<rparr>])"
    by (simp add: lookup_request_def API_VERSION_def)
qed

text \<open>
  Claim C10. On an event whose email claim is present with a false value, such as the
  empty string, every tag write that \<open>main\<close> sends through \<open>assign_owner\<close> carries
  \<^verbatim>\<open>owner_email\<close> = \<^verbatim>\<open>ManagedIdentity\<close>: the requests of the run hold no new tag write, or
  one new tag write with that value.
\<close>

theorem falsy_email_gets_sentinel:
  assumes "py_getitem event CLAIMS_KEY = Inr claims"
    and "py_getitem claims EMAIL_CLAIM_KEY = Inr email"
    and "\<not> truthy email"
    and "main service event calls = Some (out, calls', logs)"
  shows "tag_writes calls' = tag_writes calls
         \<or> (\<exists>scope uid. tag_writes calls' =
               tag_writes calls
                 @ [(scope, [(''owner_id'', uid), (''owner_email'', PStr ''ManagedIdentity'')])])"
proof -
  from main_tag_writes [OF assms(4)] show ?thesis
  proof
    assume "tag_writes calls' = tag_writes calls"
    then show ?thesis by simp
  next
    assume "\<exists>uid e resource. extract_metadata event = Inr (uid, e, Some resource)
               \<and> tag_writes calls' = tag_writes calls @ [(resource, owner_tags uid e)]"
    then obtain uid e resource where extracted: "extract_metadata event = Inr (uid, e, Some resource)"
      and written: "tag_writes calls' = tag_writes calls @ [(resource, owner_tags uid e)]"
      by blast
    from assms(1,2) extracted have "e = email" by (rule extract_metadata_email)
    with assms(3) have "owner_tags uid e =
        [(''owner_id'', uid), (''owner_email'', PStr ''ManagedIdentity'')]"
      by (simp add: owner_tags_def USER_ID_TAG_NAME_def EMAIL_TAG_NAME_def)
    with written show ?thesis by auto
  qed
qed

theorem falsy_email_gets_sentinel_witness:
  "\<exists>calls'.
     main (constant_service (Inr (Some \<lparr>tags = None\<rparr>)))
       (PDict [(''claims'', PDict [(EMAIL_CLAIM_KEY, PStr []), (ID_CLAIM_KEY, PStr ''id-1'')]),
               (''resourceUri'', PStr vm_path)]) [] = Some (Returned, calls', [LogInfo])
     \<and> tag_writes calls' =
         [(vm_path, [(''owner_id'', PStr ''id-1''), (''owner_email'', PStr ''ManagedIdentity'')])]"
proof -
  let ?claims = "PDict [(EMAIL_CLAIM_KEY, PStr []), (ID_CLAIM_KEY, PStr ''id-1'')]"
  let ?event = "PDict [(''claims'', ?claims), (''resourceUri'', PStr vm_path)]"
  let ?service = "constant_service (Inr (Some \<lparr>tags = None\<rparr>))"
  let ?calls = "[ResourcesGet \<lparr>req_subscription = ''S'', req_group = ''G'',
                   req_type = ''Microsoft.Compute/virtualMachines'', req_name = ''VM1'',
                   req_api_version = ''2021-04-01''\<rparr>,
                 TagsCreateOrUpdate vm_path (owner_tags (PStr ''id-1'') (PStr []))]"
  have h1: "py_getitem ?event CLAIMS_KEY = Inr ?claims"
    by (simp add: CLAIMS_KEY_def)
  have h2: "py_getitem ?claims EMAIL_CLAIM_KEY = Inr (PStr [])"
    by simp
  have h3: "\<not> truthy (PStr [])"
    by simp
  have extracted: "extract_metadata ?event = Inr (PStr ''id-1'', PStr [], Some vm_path)"
    by (simp add: extract_metadata_def extract_claims_def CLAIMS_KEY_def RESOURCE_KEY_def
        EMAIL_CLAIM_KEY_def ID_CLAIM_KEY_def vm_path_def)
  have kept: "\<not> list_ex (\<lambda>ignored_resource. str_contains ignored_resource vm_path) IGNORED_RESOURCES"
    by (simp add: IGNORED_RESOURCES_def vm_path_def)
  have run: "main ?service ?event [] = Some (Returned, ?calls, [LogInfo])"
    using extracted kept assign_owner_untagged [OF vm_path_fields, of "PStr ''id-1''" "PStr []" "[]"]
    by (simp add: main_def)
  have "tag_writes ?calls =
      [(vm_path, [(''owner_id'', PStr ''id-1''), (''owner_email'', PStr ''ManagedIdentity'')])]"
    using falsy_email_gets_sentinel [OF h1 h2 h3 run]
    by (auto simp: owner_tags_def)
  with run show ?thesis by blast
qed

section \<open>The top-level handler\<close>

text \<open>
  Claim C3 asks that \<open>main\<close> returns normally on every event. It does not when
  \<open>extract_metadata\<close> itself raises, as on an event whose \<^verbatim>\<open>claims\<close> is \<^verbatim>\<open>null\<close>: the
  \<^verbatim>\<open>except\<close> block formats the local \<^verbatim>\<open>resource\<close>, which was never bound, and
  UnboundLocalError leaves \<open>main\<close> with nothing logged but the closing line.
\<close>

theorem main_raises_after_failed_extraction:
  "extract_metadata (PDict [(''claims'', PNone), (''resourceUri'', PStr vm_path)]) = Inl TypeError
   \<and> main service (PDict [(''claims'', PNone), (''resourceUri'', PStr vm_path)]) calls =
       Some (Raised UnboundLocalError, calls, [LogInfo])"
proof -
  have "extract_metadata (PDict [(''claims'', PNone), (''resourceUri'', PStr vm_path)]) = Inl TypeError"
    by (simp add: extract_metadata_def extract_claims_def CLAIMS_KEY_def)
  then show ?thesis by (simp add: main_def)
qed

text \<open>
  Claim C6 names the ignored substrings as \<^verbatim>\<open>Resources/deployments\<close> and
  \<^verbatim>\<open>Resources/tags\<close>. The list of \<open>main\<close> holds \<^verbatim>\<open>Microsoft.Resources/deployments\<close> and
  \<^verbatim>\<open>Microsoft.Resources/tags\<close>: a path of another provider that contains
  \<^verbatim>\<open>Resources/deployments\<close> is looked up and tagged.
\<close>

theorem ignored_substring_counterexample:
  "str_contains ''Resources/deployments''
     ''/subscriptions/S/resourceGroups/G/providers/Contoso.Resources/deployments/D1''
   \<and> extract_metadata
       (PDict [(''claims'', PDict [(ID_CLAIM_KEY, PStr ''id-1'')]),
               (''resourceUri'',
                PStr ''/subscriptions/S/resourceGroups/G/providers/Contoso.Resources/deployments/D1'')])
     = Inr (PStr ''id-1'', PNone,
            Some ''/subscriptions/S/resourceGroups/G/providers/Contoso.Resources/deployments/D1'')
   \<and> main (constant_service (Inr (Some \<lparr>tags = None\<rparr>)))
       (PDict [(''claims'', PDict [(ID_CLAIM_KEY, PStr ''id-1'')]),
               (''resourceUri'',
                PStr ''/subscriptions/S/resourceGroups/G/providers/Contoso.Resources/deployments/D1'')])
       [] =
     Some (Returned,
           [ResourcesGet \<lparr>req_subscription = ''S'', req_group = ''G'',
              req_type = ''Contoso.Resources/deployments'', req_name = ''D1'',
              req_api_version = ''2021-04-01''\<rparr>,
            TagsCreateOrUpdate
              ''/subscriptions/S/resourceGroups/G/providers/Contoso.Resources/deployments/D1''
              [(''owner_id'', PStr ''id-1''), (''owner_email'', PStr ''ManagedIdentity'')]],
           [LogInfo])"
proof -
  let ?path = "''/subscriptions/S/resourceGroups/G/providers/Contoso.Resources/deployments/D1''"
  let ?event = "PDict [(''claims'', PDict [(ID_CLAIM_KEY, PStr ''id-1'')]),
                       (''resourceUri'', PStr ?path)]"
  have inside: "str_contains ''Resources/deployments'' ?path"
    by simp
  have extracted: "extract_metadata ?event = Inr (PStr ''id-1'', PNone, Some ?path)"
    by (simp add: extract_metadata_def extract_claims_def CLAIMS_KEY_def RESOURCE_KEY_def
        EMAIL_CLAIM_KEY_def ID_CLAIM_KEY_def)
  have kept: "\<not> list_ex (\<lambda>ignored_resource. str_contains ignored_resource ?path) IGNORED_RESOURCES"
    by (simp add: IGNORED_RESOURCES_def)
  have fields: "resource_fields ?path = Inr (''S'', ''G'', ''Contoso.Resources/deployments'', ''D1'')"
    by (simp add: resource_fields_def extract_subscription_id_def py_index_def)
  have "main (constant_service (Inr (Some \<lparr>tags = None\<rparr>))) ?event [] =
     Some (Returned,
           [ResourcesGet \<lparr>req_subscription = ''S'', req_group = ''G'',
              req_type = ''Contoso.Resources/deployments'', req_name = ''D1'',
              req_api_version = ''2021-04-01''\<rparr>,
            TagsCreateOrUpdate ?path
              [(''owner_id'', PStr ''id-1''), (''owner_email'', PStr ''ManagedIdentity'')]],
           [LogInfo])"
    using extracted kept assign_owner_untagged [OF fields, of "PStr ''id-1''" PNone "[]"]
    by (simp add: main_def owner_tags_def USER_ID_TAG_NAME_def EMAIL_TAG_NAME_def)
  with inside extracted show ?thesis by blast
qed

text \<open>
  Claim C6, amended. For every event whose extracted resource path contains
  \<^verbatim>\<open>Microsoft.Resources/deployments\<close> or \<^verbatim>\<open>Microsoft.Resources/tags\<close>, \<open>main\<close> returns
  with no request sent (no lookup, no tag write) and nothing logged but the closing
  line.
\<close>

theorem ignored_resource_no_requests:
  assumes "extract_metadata event = Inr (uid, email, Some resource)"
    and "str_contains ''Microsoft.Resources/deployments'' resource
         \<or> str_contains ''Microsoft.Resources/tags'' resource"
  shows "main service event calls = Some (Returned, calls, [LogInfo])"
  using assms by (auto simp: main_def IGNORED_RESOURCES_def)

theorem ignored_resource_no_requests_witness:
  "main (constant_service (Inr (Some \<lparr>tags = None\<rparr>)))
     (PDict [(''claims'', PDict [(ID_CLAIM_KEY, PStr ''id-1'')]),
             (''resourceUri'',
              PStr ''/subscriptions/S/resourceGroups/G/providers/Microsoft.Resources/deployments/D1'')])
     [] = Some (Returned, [], [LogInfo])"
proof -
  let ?path = "''/subscriptions/S/resourceGroups/G/providers/Microsoft.Resources/deployments/D1''"
  let ?event = "PDict [(''claims'', PDict [(ID_CLAIM_KEY, PStr ''id-1'')]),
                       (''resourceUri'', PStr ?path)]"
  have extracted: "extract_metadata ?event = Inr (PStr ''id-1'', PNone, Some ?path)"
    by (simp add: extract_metadata_def extract_claims_def CLAIMS_KEY_def RESOURCE_KEY_def
        EMAIL_CLAIM_KEY_def ID_CLAIM_KEY_def)
  have ignored: "str_contains ''Microsoft.Resources/deployments'' ?path
      \<or> str_contains ''Microsoft.Resources/tags'' ?path"
    by simp
  show ?thesis
    using ignored_resource_no_requests [OF extracted ignored] .
qed

text \<open>
  Claim C7 says that an event without \<^verbatim>\<open>claims\<close> or without \<^verbatim>\<open>resourceUri\<close> ends in an
  index error that is logged, with no tag write. An event without \<^verbatim>\<open>claims\<close> and with a
  full resource path raises nothing: the resource is looked up and tagged with
  \<^verbatim>\<open>owner_id\<close> = \<^verbatim>\<open>None\<close>. An event without \<^verbatim>\<open>resourceUri\<close> fails with TypeError at the
  test against the ignore list, not with an index error.
\<close>

theorem malformed_event_counterexample:
  "extract_metadata (PDict [(''resourceUri'', PStr vm_path)]) = Inr (PNone, PNone, Some vm_path)
   \<and> main (constant_service (Inr (Some \<lparr>tags = None\<rparr>)))
       (PDict [(''resourceUri'', PStr vm_path)]) [] =
     Some (Returned,
           [ResourcesGet \<lparr>req_subscription = ''S'', req_group = ''G'',
              req_type = ''Microsoft.Compute/virtualMachines'', req_name = ''VM1'',
              req_api_version = ''2021-04-01''\<rparr>,
            TagsCreateOrUpdate vm_path
              [(''owner_id'', PNone), (''owner_email'', PStr ''ManagedIdentity'')]],
           [LogInfo])
   \<and> extract_metadata (PDict [(''claims'', PDict [])]) = Inr (PNone, PNone, None)
   \<and> main (constant_service (Inr (Some \<lparr>tags = None\<rparr>))) (PDict [(''claims'', PDict [])]) [] =
     Some (Returned, [], [LogError None TypeError, LogInfo])"
proof -
  let ?event = "PDict [(''resourceUri'', PStr vm_path)]"
  have extracted: "extract_metadata ?event = Inr (PNone, PNone, Some vm_path)"
    by (simp add: extract_metadata_def CLAIMS_KEY_def RESOURCE_KEY_def vm_path_def)
  have kept: "\<not> list_ex (\<lambda>ignored_resource. str_contains ignored_resource vm_path) IGNORED_RESOURCES"
    by (simp add: IGNORED_RESOURCES_def vm_path_def)
  have run: "main (constant_service (Inr (Some \<lparr>tags = None\<rparr>))) ?event [] =
     Some (Returned,
           [ResourcesGet \<lparr>req_subscription = ''S'', req_group = ''G'',
              req_type = ''Microsoft.Compute/virtualMachines'', req_name = ''VM1'',
              req_api_version = ''2021-04-01''\<rparr>,
            TagsCreateOrUpdate vm_path
              [(''owner_id'', PNone), (''owner_email'', PStr ''ManagedIdentity'')]],
           [LogInfo])"
    using extracted kept assign_owner_untagged [OF vm_path_fields, of PNone PNone "[]"]
    by (simp add: main_def owner_tags_def USER_ID_TAG_NAME_def EMAIL_TAG_NAME_def)
  have bare: "extract_metadata (PDict [(''claims'', PDict [])]) = Inr (PNone, PNone, None)"
    by (simp add: extract_metadata_def extract_claims_def CLAIMS_KEY_def RESOURCE_KEY_def)
  have logged: "main (constant_service (Inr (Some \<lparr>tags = None\<rparr>))) (PDict [(''claims'', PDict [])]) [] =
     Some (Returned, [], [LogError None TypeError, LogInfo])"
    using bare by (rule main_without_resource)
  from extracted run bare logged show ?thesis
    by blast
qed

text \<open>
  Claim C7, amended. For an event (a JSON object) without \<^verbatim>\<open>resourceUri\<close>, whose
  \<^verbatim>\<open>claims\<close> are absent or a dict, extraction returns \<^verbatim>\<open>None\<close> for the resource (and for
  id and email when \<^verbatim>\<open>claims\<close> is absent) without raising, the test against the ignore
  list raises TypeError, and \<open>main\<close> logs it and returns with no request sent. For an
  event without \<^verbatim>\<open>claims\<close> whose \<^verbatim>\<open>resourceUri\<close> is a string, extraction returns \<^verbatim>\<open>None\<close>
  for id and email, and the cut path, without raising.
\<close>

theorem malformed_event_handling:
  "(''resourceUri'' \<notin> set (map fst kvs) \<longrightarrow>
      (''claims'' \<notin> set (map fst kvs) \<or> (\<exists>claims. map_of kvs ''claims'' = Some (PDict claims))) \<longrightarrow>
      (\<exists>uid email. extract_metadata (PDict kvs) = Inr (uid, email, None)
         \<and> (''claims'' \<notin> set (map fst kvs) \<longrightarrow> uid = PNone \<and> email = PNone))
      \<and> main service (PDict kvs) calls =
          Some (Returned, calls, [LogError None TypeError, LogInfo]))
   \<and> (''claims'' \<notin> set (map fst kvs) \<longrightarrow> map_of kvs ''resourceUri'' = Some (PStr uri) \<longrightarrow>
      (\<exists>resource.
         extract_resource_path (PStr uri) = Inr resource
         \<and> extract_metadata (PDict kvs) = Inr (PNone, PNone, Some resource)))"
proof (intro conjI impI)
  assume absent: "''resourceUri'' \<notin> set (map fst kvs)"
    and claims: "''claims'' \<notin> set (map fst kvs)
      \<or> (\<exists>claims. map_of kvs ''claims'' = Some (PDict claims))"
  then obtain uid email where extracted: "extract_metadata (PDict kvs) = Inr (uid, email, None)"
    using extract_metadata_no_resource [of kvs] by (auto simp: CLAIMS_KEY_def RESOURCE_KEY_def)
  moreover have "uid = PNone \<and> email = PNone" if "''claims'' \<notin> set (map fst kvs)"
    using that absent extracted by (simp add: extract_metadata_def CLAIMS_KEY_def RESOURCE_KEY_def)
  ultimately show "\<exists>uid email. extract_metadata (PDict kvs) = Inr (uid, email, None)
         \<and> (''claims'' \<notin> set (map fst kvs) \<longrightarrow> uid = PNone \<and> email = PNone)"
    by blast
  from extracted show "main service (PDict kvs) calls =
      Some (Returned, calls, [LogError None TypeError, LogInfo])"
    by (rule main_without_resource)
next
  assume "''claims'' \<notin> set (map fst kvs)" and "map_of kvs ''resourceUri'' = Some (PStr uri)"
  then have "extract_metadata (PDict kvs) =
      Inr (PNone, PNone, Some (str_join ''/'' (take 9 (str_split ''/'' uri))))"
    using extract_metadata_no_claims [of kvs uri] by (simp add: CLAIMS_KEY_def RESOURCE_KEY_def)
  then show "\<exists>resource.
         extract_resource_path (PStr uri) = Inr resource
         \<and> extract_metadata (PDict kvs) = Inr (PNone, PNone, Some resource)"
    by simp
qed

theorem malformed_event_handling_witness:
  "main (constant_service (Inr (Some \<lparr>tags = None\<rparr>)))
     (PDict [(''claims'', PDict [(ID_CLAIM_KEY, PStr ''id-1'')])]) [] =
     Some (Returned, [], [LogError None TypeError, LogInfo])
   \<and> extract_metadata (PDict [(''resourceUri'', PStr (vm_path @ ''/extensions/E''))]) =
       Inr (PNone, PNone, Some vm_path)"
proof (intro conjI)
  let ?kvs = "[(''claims'', PDict [(ID_CLAIM_KEY, PStr ''id-1'')])]"
  have absent: "''resourceUri'' \<notin> set (map fst ?kvs)"
    by simp
  have claims: "''claims'' \<notin> set (map fst ?kvs)
      \<or> (\<exists>claims. map_of ?kvs ''claims'' = Some (PDict claims))"
    by simp
  show "main (constant_service (Inr (Some \<lparr>tags = None\<rparr>))) (PDict ?kvs) [] =
      Some (Returned, [], [LogError None TypeError, LogInfo])"
    using malformed_event_handling
      [of ?kvs "constant_service (Inr (Some \<lparr>tags = None\<rparr>))" "[]"] absent claims
    by blast
next
  let ?uri = "vm_path @ ''/extensions/E''"
  let ?kvs = "[(''resourceUri'', PStr ?uri)]"
  have absent: "''claims'' \<notin> set (map fst ?kvs)"
    by simp
  have present: "map_of ?kvs ''resourceUri'' = Some (PStr ?uri)"
    by simp
  have cut: "extract_resource_path (PStr ?uri) = Inr vm_path"
    by (simp add: vm_path_def)
  from malformed_event_handling [of ?kvs _ _ ?uri] absent present
  obtain resource where found: "extract_resource_path (PStr ?uri) = Inr resource"
    and extracted: "extract_metadata (PDict ?kvs) = Inr (PNone, PNone, Some resource)"
    by blast
  from found cut have "resource = vm_path"
    by (metis sum.inject(2))
  with extracted show "extract_metadata (PDict ?kvs) = Inr (PNone, PNone, Some vm_path)"
    by simp
qed

end
